theory Spec2Isabelle
  imports Main "HOL-Library.Word"
begin

section \<open>JavaScript strings\<close>

text \<open>
  A JavaScript string is a sequence of UTF-16 code units. \<open>utf16\<close> embeds an ASCII
  literal. \<open>isWhiteSpace\<close> is the set WhiteSpace \<union> LineTerminator of ECMAScript:
  what \<open>String.prototype.trim\<close> strips at both ends and what the regular expression
  class \<open>\s\<close> matches. All its members are single code units.
\<close>

type_synonym jsstring = "16 word list"

definition utf16 :: "string \<Rightarrow> jsstring" where
  "utf16 s = map (\<lambda>c. of_nat (of_char c)) s"

definition isWhiteSpace :: "16 word \<Rightarrow> bool" where
  "isWhiteSpace c \<longleftrightarrow>
     c \<in> {0x0009, 0x000A, 0x000B, 0x000C, 0x000D, 0x0020, 0x00A0, 0x1680,
          0x2028, 0x2029, 0x202F, 0x205F, 0x3000, 0xFEFF}
     \<or> (0x2000 \<le> c \<and> c \<le> 0x200A)"

definition trim :: "jsstring \<Rightarrow> jsstring" where
  "trim s = rev (dropWhile isWhiteSpace (rev (dropWhile isWhiteSpace s)))"

text \<open>\<open>s.replaceAll(/\s+/g, "")\<close>: every run of white space is deleted.\<close>

definition removeWhiteSpace :: "jsstring \<Rightarrow> jsstring" where
  "removeWhiteSpace s = filter (\<lambda>c. \<not> isWhiteSpace c) s"

text \<open>A thrown value: \<open>new Error(message)\<close>.\<close>

datatype error = Error string

section \<open>Domain: PostDraft (domain/postDraft.ts)\<close>

datatype Status = Draft

text \<open>
  A \<open>Date\<close> is represented by the string its \<open>toISOString()\<close> yields; only valid
  dates are modelled, as the type \<open>now(): Date\<close> of the clock port promises.
\<close>

datatype Date = Date (toISOString: jsstring)

text \<open>\<open>DraftProps\<close>; an optional field (\<open>?:\<close>) is an \<open>option\<close>, \<open>undefined\<close> is \<open>None\<close>.\<close>

record DraftProps =
  ident :: "jsstring option"
  theme :: jsstring
  brandVoice :: jsstring
  product :: "jsstring option"
  imagePrompt :: "jsstring option"
  targetPersona :: "jsstring option"
  status :: Status
  createdAt :: jsstring
  caption :: "jsstring option"
  hashtags :: "jsstring list option"
  altText :: "jsstring option"

record CreateDraftInput =
  in_theme :: jsstring
  in_brandVoice :: jsstring
  in_product :: "jsstring option"
  in_imagePrompt :: "jsstring option"
  in_targetPersona :: "jsstring option"
  in_caption :: "jsstring option"
  in_hashtags :: "jsstring list option"
  in_altText :: "jsstring option"

datatype PostDraft = PostDraft (props: DraftProps)

section \<open>Ports and their observation\<close>

text \<open>
  The ports are services with state of their own. A port method takes the state of the
  outside world \<open>'w\<close> and returns it updated; a method that may fail (a rejected promise)
  returns \<open>Inl\<close> of the thrown value. \<open>DraftClock.now\<close> and \<open>IdProvider.next\<close> are
  synchronous and declared without failure.

  Every invocation of a port is appended to \<open>calls\<close>, as a spy on the port records it.
\<close>

record ContentGenerationInput =
  gen_theme :: jsstring
  gen_brandVoice :: jsstring
  gen_product :: "jsstring option"
  gen_targetPersona :: "jsstring option"

record GeneratedContent =
  g_caption :: jsstring
  g_hashtags :: "jsstring list"
  g_altText :: jsstring

record ScheduleInput =
  draftId :: jsstring
  prompt :: jsstring

record ImageJob =
  imageJobId :: jsstring

type_synonym 'w DraftClock = "'w \<Rightarrow> Date \<times> 'w"
type_synonym 'w IdProvider = "'w \<Rightarrow> jsstring \<times> 'w"
type_synonym 'w DraftRepository = "PostDraft \<Rightarrow> 'w \<Rightarrow> (error + unit) \<times> 'w"
type_synonym 'w ContentGenerator = "ContentGenerationInput \<Rightarrow> 'w \<Rightarrow> (error + GeneratedContent) \<times> 'w"
type_synonym 'w ImageScheduler = "ScheduleInput \<Rightarrow> 'w \<Rightarrow> (error + ImageJob) \<times> 'w"

datatype call =
    CallGenerate ContentGenerationInput
  | CallNow
  | CallNext
  | CallSave PostDraft
  | CallSchedule ScheduleInput

record 'w state =
  world :: 'w
  calls :: "call list"

definition invoke :: "call \<Rightarrow> ('w \<Rightarrow> 'r \<times> 'w) \<Rightarrow> 'w state \<Rightarrow> 'r \<times> 'w state" where
  "invoke c port s =
     (case port (world s) of (r, w') \<Rightarrow> (r, \<lparr>world = w', calls = calls s @ [c]\<rparr>))"

section \<open>PostDraft.create, assignId, toJSON\<close>

definition normalizeHashtags :: "jsstring list \<Rightarrow> jsstring list" where
  \<comment> \<open>\<open>.map((tag) => tag.trim()).filter(Boolean)\<close>\<close>
  "normalizeHashtags tags = filter (\<lambda>tag. tag \<noteq> []) (map trim tags)"

definition trimOrEmpty :: "jsstring option \<Rightarrow> jsstring" where
  \<comment> \<open>\<open>x?.trim() ?? ""\<close>\<close>
  "trimOrEmpty x = (case x of None \<Rightarrow> [] | Some v \<Rightarrow> trim v)"

definition create :: "CreateDraftInput \<Rightarrow> 'w DraftClock \<Rightarrow> 'w state \<Rightarrow> (error + PostDraft) \<times> 'w state" where
  "create input clock s =
     (let trimmedTheme = trim (in_theme input);
          trimmedVoice = trim (in_brandVoice input)
      in if trimmedTheme = [] then (Inl (Error ''theme must be a non-empty string''), s)
         else if trimmedVoice = [] then (Inl (Error ''brandVoice must be a non-empty string''), s)
         else
           let tags = map_option normalizeHashtags (in_hashtags input)
           in if (case tags of None \<Rightarrow> False | Some h \<Rightarrow> length h > 25)
              then (Inl (Error ''hashtags must be 25 items or fewer''), s)
              else (case invoke CallNow clock s of
                      (now, s') \<Rightarrow>
                        (Inr (PostDraft
                           \<lparr>ident = None,
                            theme = trimmedTheme,
                            brandVoice = trimmedVoice,
                            product = Some (trimOrEmpty (in_product input)),
                            imagePrompt = Some (trimOrEmpty (in_imagePrompt input)),
                            targetPersona = Some (trimOrEmpty (in_targetPersona input)),
                            status = Draft,
                            createdAt = toISOString now,
                            caption = map_option trim (in_caption input),
                            hashtags = tags,
                            altText = map_option trim (in_altText input)\<rparr>), s')))"

definition assignId :: "PostDraft \<Rightarrow> jsstring \<Rightarrow> PostDraft" where
  \<comment> \<open>\<open>new PostDraft({ ...this.props, id })\<close>\<close>
  "assignId d i = PostDraft ((props d)\<lparr>ident := Some i\<rparr>)"

definition toJSON :: "PostDraft \<Rightarrow> DraftProps" where
  \<comment> \<open>\<open>{ ...this.props }\<close>\<close>
  "toJSON d = props d"

section \<open>CreateDraftUseCase (usecases/createDraftUseCase.ts)\<close>

record DraftSummary =
  s_id :: jsstring
  s_status :: Status
  s_caption :: jsstring
  s_hashtags :: "jsstring list"
  s_altText :: jsstring
  s_createdAt :: jsstring

record 'w CreateDraftUseCase =
  repository :: "'w DraftRepository"
  idProvider :: "'w IdProvider"
  clock :: "'w DraftClock"

text \<open>
  \<open>execute\<close> hands its input to \<open>PostDraft.create\<close>, whose input type leaves
  \<open>caption\<close>, \<open>hashtags\<close> and \<open>altText\<close> optional; the input type declared by the use
  case is the special case where the three are present. \<open>json.id!\<close> is \<open>the\<close>: the
  identifier was bound by \<open>assignId\<close> just before.
\<close>

definition execute :: "'w CreateDraftUseCase \<Rightarrow> CreateDraftInput \<Rightarrow> 'w state \<Rightarrow> (error + DraftSummary) \<times> 'w state" where
  "execute uc input s =
     (case create input (clock uc) s of
        (Inl e, s1) \<Rightarrow> (Inl e, s1)
      | (Inr created, s1) \<Rightarrow>
          (case invoke CallNext (idProvider uc) s1 of
             (i, s2) \<Rightarrow>
               let draft = assignId created i
               in (case invoke (CallSave draft) (repository uc draft) s2 of
                     (Inl e, s3) \<Rightarrow> (Inl e, s3)
                   | (Inr _, s3) \<Rightarrow>
                       let json = toJSON draft
                       in (Inr \<lparr>s_id = the (ident json),
                                s_status = status json,
                                s_caption = (case caption json of None \<Rightarrow> [] | Some c \<Rightarrow> c),
                                s_hashtags = (case hashtags json of None \<Rightarrow> [] | Some h \<Rightarrow> h),
                                s_altText = (case altText json of None \<Rightarrow> [] | Some a \<Rightarrow> a),
                                s_createdAt = createdAt json\<rparr>, s3))))"

section \<open>DraftGenerationWorkflow (workflows/draftGenerationWorkflow.ts)\<close>

record DraftGenerationRequest =
  req_theme :: jsstring
  req_brandVoice :: jsstring
  req_product :: "jsstring option"
  req_imagePrompt :: "jsstring option"
  req_targetPersona :: "jsstring option"

record 'w DraftGenerationWorkflow =
  contentGenerator :: "'w ContentGenerator"
  imageScheduler :: "'w ImageScheduler"
  createDraft :: "'w CreateDraftUseCase"

definition generationInput :: "DraftGenerationRequest \<Rightarrow> ContentGenerationInput" where
  "generationInput input =
     \<lparr>gen_theme = req_theme input,
      gen_brandVoice = req_brandVoice input,
      gen_product = req_product input,
      gen_targetPersona = req_targetPersona input\<rparr>"

definition draftInput :: "DraftGenerationRequest \<Rightarrow> GeneratedContent \<Rightarrow> CreateDraftInput" where
  "draftInput input generated =
     \<lparr>in_theme = req_theme input,
      in_brandVoice = req_brandVoice input,
      in_product = req_product input,
      in_imagePrompt = req_imagePrompt input,
      in_targetPersona = req_targetPersona input,
      in_caption = Some (g_caption generated),
      in_hashtags = Some (g_hashtags generated),
      in_altText = Some (g_altText generated)\<rparr>"

definition imagePromptOf :: "DraftGenerationRequest \<Rightarrow> jsstring" where
  \<comment> \<open>\<open>input.imagePrompt?.trim() || input.theme\<close>\<close>
  "imagePromptOf input =
     (case map_option trim (req_imagePrompt input) of
        None \<Rightarrow> req_theme input
      | Some p \<Rightarrow> if p \<noteq> [] then p else req_theme input)"

definition run :: "'w DraftGenerationWorkflow \<Rightarrow> DraftGenerationRequest \<Rightarrow> 'w state \<Rightarrow> (error + DraftSummary) \<times> 'w state" where
  "run workflow input s =
     (case invoke (CallGenerate (generationInput input))
             (contentGenerator workflow (generationInput input)) s of
        (Inl e, s1) \<Rightarrow> (Inl e, s1)
      | (Inr generated, s1) \<Rightarrow>
          (case execute (createDraft workflow) (draftInput input generated) s1 of
             (Inl e, s2) \<Rightarrow> (Inl e, s2)
           | (Inr draft, s2) \<Rightarrow>
               let request = \<lparr>draftId = s_id draft, prompt = imagePromptOf input\<rparr>
               in (case invoke (CallSchedule request) (imageScheduler workflow request) s2 of
                     (Inl e, s3) \<Rightarrow> (Inl e, s3)
                   | (Inr _, s3) \<Rightarrow> (Inr draft, s3))))"

section \<open>QueueImageScheduler (infrastructure/queueImageScheduler.ts)\<close>

datatype MessageType = generate_image

record QueueMessage =
  msg_type :: MessageType
  msg_draftId :: jsstring
  msg_prompt :: jsstring

text \<open>The queue binding is its \<open>send\<close> method; \<open>undefined\<close> is \<open>None\<close>.\<close>

type_synonym 'w QueueBinding = "(QueueMessage \<Rightarrow> 'w \<Rightarrow> (error + unit) \<times> 'w) option"

definition QueueImageScheduler_schedule :: "'w QueueBinding \<Rightarrow> 'w ImageScheduler" where
  "QueueImageScheduler_schedule queue input w =
     (let job = \<lparr>imageJobId = draftId input @ utf16 ''-image''\<rparr>
      in case queue of
           None \<Rightarrow> (Inr job, w)
         | Some send \<Rightarrow>
             (case send \<lparr>msg_type = generate_image, msg_draftId = draftId input,
                          msg_prompt = prompt input\<rparr> w of
                (Inl e, w') \<Rightarrow> (Inl e, w')
              | (Inr _, w') \<Rightarrow> (Inr job, w')))"

section \<open>SimpleContentGenerator (infrastructure/simpleContentGenerator.ts)\<close>

text \<open>
  A JavaScript \<open>Set\<close> of strings keeps its members in insertion order; \<open>Array.from\<close>
  lists them in that order. \<open>String.prototype.toLowerCase\<close> belongs to the platform
  and is a parameter of the generator.
\<close>

definition Set_add :: "'a list \<Rightarrow> 'a \<Rightarrow> 'a list" where
  "Set_add tags x = (if x \<in> set tags then tags else tags @ [x])"

definition buildCaption :: "ContentGenerationInput \<Rightarrow> jsstring" where
  "buildCaption input =
     (let persona = (case gen_targetPersona input of
                       None \<Rightarrow> []
                     | Some p \<Rightarrow> if p \<noteq> [] then 0x23 # p else []);
          product = (case gen_product input of
                       None \<Rightarrow> []
                     | Some p \<Rightarrow> if p \<noteq> [] then 0x20 # p else [])
      in trim (gen_theme input @ product @ [0x3092] @ gen_brandVoice input
               @ [0x30C8, 0x30FC, 0x30F3, 0x3067, 0x7D39, 0x4ECB, 0x3002] @ persona))"

definition buildHashtags :: "(jsstring \<Rightarrow> jsstring) \<Rightarrow> ContentGenerationInput \<Rightarrow> jsstring list" where
  "buildHashtags toLowerCase input =
     (let tags = Set_add [] (toLowerCase (removeWhiteSpace (gen_theme input)));
          tags = (case gen_product input of
                    None \<Rightarrow> tags
                  | Some p \<Rightarrow>
                      if p \<noteq> [] then Set_add tags (toLowerCase (removeWhiteSpace p)) else tags)
      in Set_add tags (utf16 ''instagram''))"

definition buildAltText :: "ContentGenerationInput \<Rightarrow> jsstring" where
  "buildAltText input =
     gen_theme input @ [0x3092, 0x8868, 0x73FE, 0x3059, 0x308B, 0x753B, 0x50CF]"

definition generate :: "(jsstring \<Rightarrow> jsstring) \<Rightarrow> ContentGenerationInput \<Rightarrow> GeneratedContent" where
  "generate toLowerCase input =
     \<lparr>g_caption = buildCaption input,
      g_hashtags = buildHashtags toLowerCase input,
      g_altText = buildAltText input\<rparr>"

text \<open>The generator as a \<open>ContentGenerator\<close> port: it never fails and touches no state.\<close>

definition SimpleContentGenerator :: "(jsstring \<Rightarrow> jsstring) \<Rightarrow> 'w ContentGenerator" where
  "SimpleContentGenerator toLowerCase input w = (Inr (generate toLowerCase input), w)"

section \<open>Notions used in the statements\<close>


fun isSave :: "call \<Rightarrow> bool" where
  "isSave (CallSave _) = True"
| "isSave _ = False"



text \<open>The projection of a draft into a \<open>DraftSummary\<close>, as \<open>execute\<close> builds it.\<close>

definition summaryOf :: "PostDraft \<Rightarrow> DraftSummary" where
  "summaryOf draft =
     \<lparr>s_id = the (ident (toJSON draft)),
      s_status = status (toJSON draft),
      s_caption = (case caption (toJSON draft) of None \<Rightarrow> [] | Some c \<Rightarrow> c),
      s_hashtags = (case hashtags (toJSON draft) of None \<Rightarrow> [] | Some h \<Rightarrow> h),
      s_altText = (case altText (toJSON draft) of None \<Rightarrow> [] | Some a \<Rightarrow> a),
      s_createdAt = createdAt (toJSON draft)\<rparr>"

text \<open>The props the factory stores for an accepted input, given the clock's reading.\<close>

definition stored :: "CreateDraftInput \<Rightarrow> jsstring \<Rightarrow> DraftProps" where
  "stored input t =
     \<lparr>ident = None,
      theme = trim (in_theme input),
      brandVoice = trim (in_brandVoice input),
      product = Some (trimOrEmpty (in_product input)),
      imagePrompt = Some (trimOrEmpty (in_imagePrompt input)),
      targetPersona = Some (trimOrEmpty (in_targetPersona input)),
      status = Draft,
      createdAt = t,
      caption = map_option trim (in_caption input),
      hashtags = map_option normalizeHashtags (in_hashtags input),
      altText = map_option trim (in_altText input)\<rparr>"

section \<open>Fixtures\<close>

text \<open>Stub ports and inputs in the style of the repository's tests; the stubs keep no state.\<close>

definition fixedClock :: "unit DraftClock" where
  "fixedClock w = (Date (utf16 ''2025-01-01T00:00:00.000Z''), w)"

definition start :: "unit state" where
  "start = \<lparr>world = (), calls = []\<rparr>"

definition sneakerInput :: CreateDraftInput where
  "sneakerInput =
     \<lparr>in_theme = utf16 '' new sneaker '',
      in_brandVoice = utf16 ''friendly'',
      in_product = Some (utf16 ''AirFlex''),
      in_imagePrompt = None,
      in_targetPersona = None,
      in_caption = Some (utf16 ''C''),
      in_hashtags = Some [utf16 ''a'', utf16 '' '', utf16 '' b''],
      in_altText = None\<rparr>"

definition blankThemeInput :: CreateDraftInput where
  "blankThemeInput =
     \<lparr>in_theme = utf16 ''  '',
      in_brandVoice = utf16 ''kind'',
      in_product = None,
      in_imagePrompt = None,
      in_targetPersona = None,
      in_caption = None,
      in_hashtags = None,
      in_altText = None\<rparr>"

definition manyTagsInput :: "jsstring list \<Rightarrow> CreateDraftInput" where
  "manyTagsInput tags =
     \<lparr>in_theme = utf16 ''t'',
      in_brandVoice = utf16 ''v'',
      in_product = None,
      in_imagePrompt = None,
      in_targetPersona = None,
      in_caption = None,
      in_hashtags = Some tags,
      in_altText = None\<rparr>"

text \<open>\<open>toLowerCase\<close> on ASCII strings.\<close>

definition toLowerASCII :: "jsstring \<Rightarrow> jsstring" where
  "toLowerASCII s = map (\<lambda>c. if 0x41 \<le> c \<and> c \<le> 0x5A then c + 0x20 else c) s"

definition springSaleInput :: ContentGenerationInput where
  "springSaleInput =
     \<lparr>gen_theme = utf16 ''Spring Sale'',
      gen_brandVoice = utf16 ''friendly'',
      gen_product = Some (utf16 ''Instagram''),
      gen_targetPersona = None\<rparr>"

definition sneakerDraft :: PostDraft where
  "sneakerDraft = PostDraft
     \<lparr>ident = None,
      theme = utf16 ''new sneaker'',
      brandVoice = utf16 ''friendly'',
      product = Some (utf16 ''AirFlex''),
      imagePrompt = Some [],
      targetPersona = Some [],
      status = Draft,
      createdAt = utf16 ''2025-01-01T00:00:00.000Z'',
      caption = Some (utf16 ''C''),
      hashtags = Some [utf16 ''a'', utf16 ''b''],
      altText = None\<rparr>"

definition fixedId :: "unit IdProvider" where
  "fixedId w = (utf16 ''draft-123'', w)"

definition okRepository :: "unit DraftRepository" where
  "okRepository d w = (Inr (), w)"

definition fullRepository :: "unit DraftRepository" where
  "fullRepository d w = (Inl (Error ''kv down''), w)"

definition useCase :: "unit CreateDraftUseCase" where
  "useCase = \<lparr>repository = okRepository, idProvider = fixedId, clock = fixedClock\<rparr>"

definition stubGenerator :: "unit ContentGenerator" where
  "stubGenerator i w =
     (Inr \<lparr>g_caption = utf16 ''C'', g_hashtags = [utf16 ''a'', utf16 ''b''],
           g_altText = utf16 ''Alt''\<rparr>, w)"

definition failingGenerator :: "unit ContentGenerator" where
  "failingGenerator i w = (Inl (Error ''generation failed''), w)"

definition okScheduler :: "unit ImageScheduler" where
  "okScheduler i w = (Inr \<lparr>imageJobId = utf16 ''job-789''\<rparr>, w)"

definition failingScheduler :: "unit ImageScheduler" where
  "failingScheduler i w = (Inl (Error ''queue unavailable''), w)"

definition workflowOf :: "unit ContentGenerator \<Rightarrow> unit ImageScheduler \<Rightarrow> unit DraftGenerationWorkflow" where
  "workflowOf g sch = \<lparr>contentGenerator = g, imageScheduler = sch, createDraft = useCase\<rparr>"

definition springRequest :: DraftGenerationRequest where
  "springRequest =
     \<lparr>req_theme = utf16 '' spring sneaker'',
      req_brandVoice = utf16 ''friendly'',
      req_product = None,
      req_imagePrompt = Some (utf16 ''  ''),
      req_targetPersona = None\<rparr>"



definition rejectingQueue :: "QueueMessage \<Rightarrow> unit \<Rightarrow> (error + unit) \<times> unit" where
  "rejectingQueue m w = (Inl (Error ''send failed''), w)"

definition acceptingQueue :: "QueueMessage \<Rightarrow> unit \<Rightarrow> (error + unit) \<times> unit" where
  "acceptingQueue m w = (Inr (), w)"

definition sneakerJob :: ScheduleInput where
  "sneakerJob = \<lparr>draftId = utf16 ''draft-123'', prompt = utf16 ''young person walking''\<rparr>"

section \<open>Trimming\<close>

lemma rev_dropWhile_prefix: "rev (dropWhile P (rev t)) @ rev (takeWhile P (rev t)) = t"
  by (metis rev_append rev_rev_ident takeWhile_dropWhile_id)

lemma dropWhile_rev_fixed:
  "dropWhile P (rev (dropWhile P (rev (dropWhile P s)))) = rev (dropWhile P (rev (dropWhile P s)))"
proof (cases "dropWhile P s")
  case Nil
  show ?thesis unfolding Nil by simp
next
  case (Cons x xs)
  then have nP: "\<not> P x"
    using hd_dropWhile[of P s] by simp
  define u where "u = rev (dropWhile P (rev (x # xs)))"
  have split: "u @ rev (takeWhile P (rev (x # xs))) = x # xs"
    unfolding u_def by (rule rev_dropWhile_prefix)
  have "dropWhile P u = u"
  proof (cases u)
    case Nil
    then show ?thesis by simp
  next
    case (Cons y ys)
    with split have "y = x" by simp
    with Cons nP show ?thesis by simp
  qed
  then show ?thesis
    unfolding Cons u_def .
qed

lemma trim_idem: "trim (trim s) = trim s"
  unfolding trim_def by (simp add: dropWhile_rev_fixed)

lemma normalizeHashtags_eq:
  "normalizeHashtags h = map trim (filter (\<lambda>t. trim t \<noteq> []) h)"
  unfolding normalizeHashtags_def by (induction h) auto

lemma normalizeHashtags_idem: "normalizeHashtags (normalizeHashtags h) = normalizeHashtags h"
  unfolding normalizeHashtags_def by (induction h) (auto simp: trim_idem)

section \<open>The factory\<close>

lemmas eval_defs = create_def invoke_def utf16_def trim_def isWhiteSpace_def
  normalizeHashtags_def trimOrEmpty_def fixedClock_def start_def toJSON_def assignId_def

lemma create_rejects:
  "trim (in_theme input) = [] \<Longrightarrow>
     create input clk s = (Inl (Error ''theme must be a non-empty string''), s)"
  "trim (in_theme input) \<noteq> [] \<Longrightarrow> trim (in_brandVoice input) = [] \<Longrightarrow>
     create input clk s = (Inl (Error ''brandVoice must be a non-empty string''), s)"
  "trim (in_theme input) \<noteq> [] \<Longrightarrow> trim (in_brandVoice input) \<noteq> [] \<Longrightarrow>
     in_hashtags input = Some h \<Longrightarrow> 25 < length (normalizeHashtags h) \<Longrightarrow>
     create input clk s = (Inl (Error ''hashtags must be 25 items or fewer''), s)"
  by (simp_all add: create_def)

lemma create_accepts:
  assumes "trim (in_theme input) \<noteq> []" and "trim (in_brandVoice input) \<noteq> []"
    and "\<And>h. in_hashtags input = Some h \<Longrightarrow> length (normalizeHashtags h) \<le> 25"
  shows "create input clk s =
           (Inr (PostDraft (stored input (toISOString (fst (clk (world s)))))),
            \<lparr>world = snd (clk (world s)), calls = calls s @ [CallNow]\<rparr>)"
  using assms
  by (cases "in_hashtags input")
     (auto simp: create_def invoke_def stored_def Let_def split: prod.splits)

lemma create_Inr_iff:
  "(\<exists>d s'. create input clk s = (Inr d, s')) \<longleftrightarrow>
     trim (in_theme input) \<noteq> [] \<and> trim (in_brandVoice input) \<noteq> [] \<and>
     (\<forall>h. in_hashtags input = Some h \<longrightarrow> length (normalizeHashtags h) \<le> 25)"
  by (cases "in_hashtags input")
     (auto simp: create_def invoke_def Let_def split: prod.splits)

text \<open>
  C4. Whenever \<open>theme\<close> or \<open>brandVoice\<close> is empty after trimming, \<open>PostDraft.create\<close>
  throws one of its two validation errors and touches nothing. Every draft it returns
  carries the trimmed, non-empty \<open>theme\<close> and \<open>brandVoice\<close> of the input, and it does
  return a draft for every valid input (both non-empty after trimming, at most 25
  hashtags left after normalisation).
\<close>

theorem create_requires_theme_and_brandVoice:
  "(trim (in_theme input) = [] \<or> trim (in_brandVoice input) = [] \<longrightarrow>
      (\<exists>msg. create input clk s = (Inl (Error msg), s) \<and>
             msg \<in> {''theme must be a non-empty string'',
                    ''brandVoice must be a non-empty string''}))
   \<and> (\<forall>d s'. create input clk s = (Inr d, s') \<longrightarrow>
          theme (props d) = trim (in_theme input) \<and> theme (props d) \<noteq> [] \<and>
          brandVoice (props d) = trim (in_brandVoice input) \<and> brandVoice (props d) \<noteq> [])
   \<and> (trim (in_theme input) \<noteq> [] \<and> trim (in_brandVoice input) \<noteq> [] \<and>
        (\<forall>h. in_hashtags input = Some h \<longrightarrow> length (normalizeHashtags h) \<le> 25) \<longrightarrow>
          (\<exists>d s'. create input clk s = (Inr d, s') \<and>
             theme (props d) = trim (in_theme input) \<and>
             brandVoice (props d) = trim (in_brandVoice input)))"
proof (intro conjI impI allI)
  assume "trim (in_theme input) = [] \<or> trim (in_brandVoice input) = []"
  then show "\<exists>msg. create input clk s = (Inl (Error msg), s) \<and>
             msg \<in> {''theme must be a non-empty string'',
                    ''brandVoice must be a non-empty string''}"
    by (cases "trim (in_theme input) = []") (auto simp: create_rejects)
next
  fix d s' assume ok: "create input clk s = (Inr d, s')"
  then have v: "trim (in_theme input) \<noteq> []" "trim (in_brandVoice input) \<noteq> []"
    "\<And>h. in_hashtags input = Some h \<Longrightarrow> length (normalizeHashtags h) \<le> 25"
    using create_Inr_iff[of input clk s] by auto
  from create_accepts[OF v, of clk s] ok
  have d: "d = PostDraft (stored input (toISOString (fst (clk (world s)))))" by simp
  show "theme (props d) = trim (in_theme input)" by (simp add: d stored_def)
  show "theme (props d) \<noteq> []" by (simp add: d stored_def v)
  show "brandVoice (props d) = trim (in_brandVoice input)" by (simp add: d stored_def)
  show "brandVoice (props d) \<noteq> []" by (simp add: d stored_def v)
next
  assume "trim (in_theme input) \<noteq> [] \<and> trim (in_brandVoice input) \<noteq> [] \<and>
        (\<forall>h. in_hashtags input = Some h \<longrightarrow> length (normalizeHashtags h) \<le> 25)"
  then have v: "trim (in_theme input) \<noteq> []" "trim (in_brandVoice input) \<noteq> []"
    "\<And>h. in_hashtags input = Some h \<Longrightarrow> length (normalizeHashtags h) \<le> 25"
    by auto
  show "\<exists>d s'. create input clk s = (Inr d, s') \<and>
             theme (props d) = trim (in_theme input) \<and>
             brandVoice (props d) = trim (in_brandVoice input)"
    by (simp add: create_accepts[OF v] stored_def)
qed

theorem create_requires_theme_and_brandVoice_witness:
  "trim (in_theme blankThemeInput) = [] \<and>
   create blankThemeInput fixedClock start =
     (Inl (Error ''theme must be a non-empty string''), start) \<and>
   trim (in_theme sneakerInput) \<noteq> [] \<and> trim (in_brandVoice sneakerInput) \<noteq> [] \<and>
   (\<exists>d s'. create sneakerInput fixedClock start = (Inr d, s') \<and>
      theme (props d) = utf16 ''new sneaker'' \<and> brandVoice (props d) = utf16 ''friendly'')"
  using create_requires_theme_and_brandVoice[of blankThemeInput fixedClock start]
        create_requires_theme_and_brandVoice[of sneakerInput fixedClock start]
  by (simp add: eval_defs blankThemeInput_def sneakerInput_def)

section \<open>The hashtag limit\<close>

lemma length_nonblank: "length (normalizeHashtags h) = length (filter (\<lambda>t. trim t \<noteq> []) h)"
  by (simp add: normalizeHashtags_eq)

lemma create_too_many:
  assumes "in_hashtags input = Some h" and "25 < length (filter (\<lambda>t. trim t \<noteq> []) h)"
  shows "\<exists>e. create input clk s = (Inl e, s)"
proof -
  from assms(2) have big: "25 < length (normalizeHashtags h)"
    by (simp only: length_nonblank)
  show ?thesis
  proof (cases "trim (in_theme input) = []")
    case True
    then show ?thesis using create_rejects(1) by blast
  next
    case t: False
    show ?thesis
    proof (cases "trim (in_brandVoice input) = []")
      case True
      with t show ?thesis using create_rejects(2) by blast
    next
      case False
      with t assms(1) big show ?thesis using create_rejects(3) by blast
    qed
  qed
qed

lemma create_hashtags_stored:
  assumes "create input clk s = (Inr d, s')" and "hashtags (props d) = Some tags"
  shows "\<exists>h'. in_hashtags input = Some h' \<and> tags = normalizeHashtags h' \<and> length tags \<le> 25"
proof -
  from assms(1) have v: "trim (in_theme input) \<noteq> []" "trim (in_brandVoice input) \<noteq> []"
    "\<And>h'. in_hashtags input = Some h' \<Longrightarrow> length (normalizeHashtags h') \<le> 25"
    using create_Inr_iff[of input clk s] by auto
  from create_accepts[OF v, of clk s] assms
  have "map_option normalizeHashtags (in_hashtags input) = Some tags"
    by (auto simp: stored_def)
  then obtain h' where h': "in_hashtags input = Some h'" "tags = normalizeHashtags h'"
    by auto
  with v(3) show ?thesis by simp
qed

lemma normalizeHashtags_members: "t \<in> set (normalizeHashtags h) \<Longrightarrow> t \<noteq> [] \<and> trim t = t"
  unfolding normalizeHashtags_def by (auto simp: trim_idem)

lemma trim_examples:
  "trim (utf16 ''x '') = utf16 ''x''" "trim (utf16 '' '') = []"
  "trim (utf16 ''t'') = utf16 ''t''" "trim (utf16 ''v'') = utf16 ''v''"
  by (simp_all add: eval_defs)

lemma nb26: "length (filter (\<lambda>t. trim t \<noteq> []) (replicate 26 (utf16 ''x ''))) = 26"
  by (simp add: trim_examples filter_replicate) (simp add: utf16_def)

lemma nb25: "filter (\<lambda>t. trim t \<noteq> []) (utf16 '' '' # replicate 25 (utf16 ''x '')) = replicate 25 (utf16 ''x '')"
  by (simp add: trim_examples filter_replicate) (simp add: utf16_def)

text \<open>
  C5. An input that keeps more than 25 hashtags after trimming and dropping the blank
  ones is rejected (with the hashtag error once \<open>theme\<close> and \<open>brandVoice\<close> have
  passed their own check, the invariant of C4). With 25 or fewer, an input that has
  passed that check is accepted, and the draft's hashtags are the non-blank input tags,
  trimmed, in input order. Every stored hashtag is non-empty and already trimmed, and at most 25 are
  stored.
\<close>

theorem create_hashtag_limit:
  "(in_hashtags input = Some h \<and> 25 < length (filter (\<lambda>t. trim t \<noteq> []) h) \<longrightarrow>
      (\<exists>e. create input clk s = (Inl e, s)))
   \<and> (in_hashtags input = Some h \<and> 25 < length (filter (\<lambda>t. trim t \<noteq> []) h) \<and>
        trim (in_theme input) \<noteq> [] \<and> trim (in_brandVoice input) \<noteq> [] \<longrightarrow>
      create input clk s = (Inl (Error ''hashtags must be 25 items or fewer''), s))
   \<and> (in_hashtags input = Some h \<and> length (filter (\<lambda>t. trim t \<noteq> []) h) \<le> 25 \<and>
        trim (in_theme input) \<noteq> [] \<and> trim (in_brandVoice input) \<noteq> [] \<longrightarrow>
      (\<exists>d s'. create input clk s = (Inr d, s') \<and>
         hashtags (props d) = Some (map trim (filter (\<lambda>t. trim t \<noteq> []) h))))
   \<and> (in_hashtags input = None \<and>
        trim (in_theme input) \<noteq> [] \<and> trim (in_brandVoice input) \<noteq> [] \<longrightarrow>
      (\<exists>d s'. create input clk s = (Inr d, s') \<and> hashtags (props d) = None))
   \<and> (\<forall>d s' tags. create input clk s = (Inr d, s') \<and> hashtags (props d) = Some tags \<longrightarrow>
        (\<exists>h'. in_hashtags input = Some h' \<and>
              tags = map trim (filter (\<lambda>t. trim t \<noteq> []) h')) \<and>
        length tags \<le> 25 \<and> (\<forall>t \<in> set tags. t \<noteq> [] \<and> trim t = t))"
proof (intro conjI impI allI)
  assume "in_hashtags input = Some h \<and> 25 < length (filter (\<lambda>t. trim t \<noteq> []) h)"
  then show "\<exists>e. create input clk s = (Inl e, s)"
    using create_too_many by blast
next
  assume a: "in_hashtags input = Some h \<and> 25 < length (filter (\<lambda>t. trim t \<noteq> []) h) \<and>
        trim (in_theme input) \<noteq> [] \<and> trim (in_brandVoice input) \<noteq> []"
  then have "25 < length (normalizeHashtags h)" by (simp only: length_nonblank)
  with a show "create input clk s = (Inl (Error ''hashtags must be 25 items or fewer''), s)"
    using create_rejects(3) by blast
next
  assume a: "in_hashtags input = Some h \<and> length (filter (\<lambda>t. trim t \<noteq> []) h) \<le> 25 \<and>
        trim (in_theme input) \<noteq> [] \<and> trim (in_brandVoice input) \<noteq> []"
  then have le: "length (normalizeHashtags h) \<le> 25" by (simp only: length_nonblank)
  from a le have v: "trim (in_theme input) \<noteq> []" "trim (in_brandVoice input) \<noteq> []"
    "\<And>h'. in_hashtags input = Some h' \<Longrightarrow> length (normalizeHashtags h') \<le> 25"
    by auto
  have "hashtags (stored input t) = Some (map trim (filter (\<lambda>t. trim t \<noteq> []) h))" for t
    using a by (simp add: stored_def normalizeHashtags_eq)
  then have "hashtags (props (PostDraft (stored input (toISOString (fst (clk (world s))))))) =
      Some (map trim (filter (\<lambda>t. trim t \<noteq> []) h))"
    by simp
  with create_accepts[OF v, of clk s]
  show "\<exists>d s'. create input clk s = (Inr d, s') \<and>
         hashtags (props d) = Some (map trim (filter (\<lambda>t. trim t \<noteq> []) h))"
    by blast
next
  assume a: "in_hashtags input = None \<and>
        trim (in_theme input) \<noteq> [] \<and> trim (in_brandVoice input) \<noteq> []"
  then have v: "trim (in_theme input) \<noteq> []" "trim (in_brandVoice input) \<noteq> []"
    "\<And>h'. in_hashtags input = Some h' \<Longrightarrow> length (normalizeHashtags h') \<le> 25"
    by auto
  have "hashtags (stored input t) = None" for t
    using a by (simp add: stored_def)
  then have "hashtags (props (PostDraft (stored input (toISOString (fst (clk (world s))))))) = None"
    by simp
  with create_accepts[OF v, of clk s]
  show "\<exists>d s'. create input clk s = (Inr d, s') \<and> hashtags (props d) = None"
    by blast
next
  fix d s' tags
  assume ok: "create input clk s = (Inr d, s') \<and> hashtags (props d) = Some tags"
  then obtain h' where h': "in_hashtags input = Some h'" "tags = normalizeHashtags h'"
    "length tags \<le> 25"
    using create_hashtags_stored by blast
  show "\<exists>h'. in_hashtags input = Some h' \<and> tags = map trim (filter (\<lambda>t. trim t \<noteq> []) h')"
    using h' normalizeHashtags_eq by blast
  show "length tags \<le> 25" by (rule h'(3))
  show "\<forall>t \<in> set tags. t \<noteq> [] \<and> trim t = t"
    unfolding h'(2) using normalizeHashtags_members by blast
qed

theorem create_hashtag_limit_witness:
  "create (manyTagsInput (replicate 26 (utf16 ''x ''))) fixedClock start =
     (Inl (Error ''hashtags must be 25 items or fewer''), start) \<and>
   (\<exists>d s'. create (manyTagsInput (utf16 '' '' # replicate 25 (utf16 ''x ''))) fixedClock start = (Inr d, s') \<and>
      hashtags (props d) = Some (replicate 25 (utf16 ''x'')))"
proof -
  have a: "in_hashtags (manyTagsInput tags) = Some tags"
    "trim (in_theme (manyTagsInput tags)) \<noteq> []"
    "trim (in_brandVoice (manyTagsInput tags)) \<noteq> []" for tags
    by (simp_all add: manyTagsInput_def trim_examples) (simp_all add: utf16_def)
  have m: "map trim (replicate 25 (utf16 ''x '')) = replicate 25 (utf16 ''x'')"
    by (simp add: trim_examples)
  have big: "(25::nat) < 26" by simp
  have le: "length (replicate 25 (utf16 ''x '')) \<le> 25" by simp
  from create_hashtag_limit[of "manyTagsInput (replicate 26 (utf16 ''x ''))" "replicate 26 (utf16 ''x '')" fixedClock start]
  have 1: "create (manyTagsInput (replicate 26 (utf16 ''x ''))) fixedClock start =
     (Inl (Error ''hashtags must be 25 items or fewer''), start)"
    unfolding nb26 using a big by blast
  from create_hashtag_limit[of "manyTagsInput (utf16 '' '' # replicate 25 (utf16 ''x ''))" "utf16 '' '' # replicate 25 (utf16 ''x '')" fixedClock start]
  have 2: "\<exists>d s'. create (manyTagsInput (utf16 '' '' # replicate 25 (utf16 ''x ''))) fixedClock start = (Inr d, s') \<and>
      hashtags (props d) = Some (replicate 25 (utf16 ''x''))"
    unfolding nb25 m using a le by blast
  from 1 2 show ?thesis by (rule conjI)
qed

section \<open>Identity assignment\<close>

text \<open>
  C9. \<open>assignId(id)\<close> returns a draft whose \<open>id\<close> is the given identifier and whose
  other ten fields are those of the receiver; its record is the receiver's record with
  \<open>id\<close> replaced, and a second assignment overwrites the first. The receiver is a value
  and is not changed.
\<close>

theorem assignId_changes_only_id:
  "ident (props (assignId d i)) = Some i
   \<and> theme (props (assignId d i)) = theme (props d)
   \<and> brandVoice (props (assignId d i)) = brandVoice (props d)
   \<and> product (props (assignId d i)) = product (props d)
   \<and> imagePrompt (props (assignId d i)) = imagePrompt (props d)
   \<and> targetPersona (props (assignId d i)) = targetPersona (props d)
   \<and> caption (props (assignId d i)) = caption (props d)
   \<and> hashtags (props (assignId d i)) = hashtags (props d)
   \<and> altText (props (assignId d i)) = altText (props d)
   \<and> status (props (assignId d i)) = status (props d)
   \<and> createdAt (props (assignId d i)) = createdAt (props d)
   \<and> toJSON (assignId d i) = (toJSON d)\<lparr>ident := Some i\<rparr>
   \<and> assignId (assignId d i) j = assignId d j"
  by (simp add: assignId_def toJSON_def)

section \<open>The rule-based generator\<close>

lemma Set_add_distinct: "distinct tags \<Longrightarrow> distinct (Set_add tags x)"
  by (simp add: Set_add_def)

lemma Set_add_length: "length (Set_add tags x) \<le> Suc (length tags)"
  by (simp add: Set_add_def)

lemma Set_add_member: "x \<in> set (Set_add tags x)"
  by (simp add: Set_add_def)

lemma buildHashtags_distinct: "distinct (buildHashtags lc input)"
  by (auto simp: buildHashtags_def Let_def intro!: Set_add_distinct split: option.splits)

lemma buildHashtags_length: "length (buildHashtags lc input) \<le> 3"
proof -
  have 1: "length (Set_add [] a) \<le> 1" for a :: jsstring
    using Set_add_length[of "[]" a] by simp
  have 2: "length (Set_add (Set_add [] a) b) \<le> 2" for a b :: jsstring
    using Set_add_length[of "Set_add [] a" b] 1[of a] by simp
  have 3: "length (Set_add (Set_add [] a) c) \<le> 3" for a c :: jsstring
    using 2[of a c] by simp
  have 4: "length (Set_add (Set_add (Set_add [] a) b) c) \<le> 3" for a b c :: jsstring
    using Set_add_length[of "Set_add (Set_add [] a) b" c] 2[of a b] by simp
  show ?thesis
    by (simp add: buildHashtags_def Let_def 3 4 split: option.splits)
qed

lemma buildHashtags_instagram: "utf16 ''instagram'' \<in> set (buildHashtags lc input)"
  by (simp add: buildHashtags_def Let_def Set_add_member)

lemma length_normalizeHashtags_le: "length (normalizeHashtags h) \<le> length h"
  by (simp add: normalizeHashtags_def)

lemma create_never_too_many:
  assumes "in_hashtags input = Some h" and "length h \<le> 25"
  shows "fst (create input clk s) \<noteq> Inl (Error ''hashtags must be 25 items or fewer'')"
proof -
  have "length (normalizeHashtags h) \<le> 25"
    using length_normalizeHashtags_le[of h] assms(2) by simp
  then show ?thesis
    using assms(1) by (simp add: create_def Let_def invoke_def split: prod.splits)
qed

text \<open>
  C10. For every input and every \<open>toLowerCase\<close>, the generator's hashtags are free of
  duplicates, at most three, and contain \<open>instagram\<close>. As a port the generator returns
  \<open>generate\<close> of its input whatever the state of the world, which it leaves unchanged, so
  two runs on equal input agree. A factory input carrying these hashtags is never rejected
  with the hashtag error.
\<close>

theorem generate_hashtags_bounded:
  "distinct (g_hashtags (generate lc gi))
   \<and> length (g_hashtags (generate lc gi)) \<le> 3
   \<and> utf16 ''instagram'' \<in> set (g_hashtags (generate lc gi))
   \<and> SimpleContentGenerator lc gi (w::'w) = (Inr (generate lc gi), w)
   \<and> fst (SimpleContentGenerator lc gi (w'::'w)) = fst (SimpleContentGenerator lc gi w)
   \<and> (in_hashtags input = Some (g_hashtags (generate lc gi)) \<longrightarrow>
         fst (create input clk s) \<noteq> Inl (Error ''hashtags must be 25 items or fewer''))"
proof -
  have d: "distinct (g_hashtags (generate lc gi))"
    by (simp add: generate_def buildHashtags_distinct)
  have len: "length (g_hashtags (generate lc gi)) \<le> 3"
    by (simp add: generate_def buildHashtags_length)
  have i: "utf16 ''instagram'' \<in> set (g_hashtags (generate lc gi))"
    by (simp only: generate_def GeneratedContent.simps buildHashtags_instagram)
  have p: "SimpleContentGenerator lc gi v = (Inr (generate lc gi), v)" for v :: 'w
    by (simp add: SimpleContentGenerator_def)
  have c: "fst (create input clk s) \<noteq> Inl (Error ''hashtags must be 25 items or fewer'')"
    if h: "in_hashtags input = Some (g_hashtags (generate lc gi))"
  proof -
    from len have "length (g_hashtags (generate lc gi)) \<le> 25" by simp
    with h show ?thesis by (rule create_never_too_many)
  qed
  from d len i p[of w] p[of w'] c show ?thesis by simp
qed

theorem generate_hashtags_bounded_witness:
  "g_hashtags (generate toLowerASCII springSaleInput) = [utf16 ''springsale'', utf16 ''instagram'']
   \<and> fst (create (sneakerInput\<lparr>in_hashtags := Some (g_hashtags (generate toLowerASCII springSaleInput))\<rparr>)
             fixedClock start) \<noteq> Inl (Error ''hashtags must be 25 items or fewer'')"
proof -
  have g: "g_hashtags (generate toLowerASCII springSaleInput) = [utf16 ''springsale'', utf16 ''instagram'']"
    by (simp add: generate_def buildHashtags_def Set_add_def toLowerASCII_def springSaleInput_def
        removeWhiteSpace_def isWhiteSpace_def utf16_def)
  have h: "in_hashtags (sneakerInput\<lparr>in_hashtags := Some (g_hashtags (generate toLowerASCII springSaleInput))\<rparr>)
      = Some (g_hashtags (generate toLowerASCII springSaleInput))"
    by simp
  from generate_hashtags_bounded[of toLowerASCII springSaleInput "()" "()"
      "sneakerInput\<lparr>in_hashtags := Some (g_hashtags (generate toLowerASCII springSaleInput))\<rparr>" fixedClock start] h
  have "fst (create (sneakerInput\<lparr>in_hashtags := Some (g_hashtags (generate toLowerASCII springSaleInput))\<rparr>)
             fixedClock start) \<noteq> Inl (Error ''hashtags must be 25 items or fewer'')"
    by blast
  with g show ?thesis by (rule conjI)
qed

section \<open>The record of a created draft\<close>

lemma create_sneaker:
  "create sneakerInput fixedClock start = (Inr sneakerDraft, \<lparr>world = (), calls = [CallNow]\<rparr>)"
  by (simp add: eval_defs sneakerInput_def sneakerDraft_def)

text \<open>
  C8, as stated, fails: the factory accepts an input with the theme \<open>" new sneaker "\<close>,
  the hashtags \<open>["a", " ", " b"]\<close> and no image prompt, and the record of the created
  draft holds the theme \<open>"new sneaker"\<close>, the hashtags \<open>["a", "b"]\<close> and the image prompt
  \<open>""\<close>: none of the three is the value supplied.
\<close>

theorem toJSON_roundtrip_counterexample:
  "fst (create sneakerInput fixedClock start) = Inr sneakerDraft
   \<and> theme (toJSON sneakerDraft) \<noteq> in_theme sneakerInput
   \<and> hashtags (toJSON sneakerDraft) \<noteq> in_hashtags sneakerInput
   \<and> imagePrompt (toJSON sneakerDraft) \<noteq> in_imagePrompt sneakerInput"
  by (simp add: create_sneaker) (simp add: sneakerInput_def sneakerDraft_def toJSON_def utf16_def)

lemma normalizeHashtags_fixed:
  "\<forall>t \<in> set h. trim t = t \<and> t \<noteq> [] \<Longrightarrow> normalizeHashtags h = h"
  unfolding normalizeHashtags_def by (induction h) auto

lemma create_stored:
  assumes "create input clk s = (Inr d, s')"
  shows "props d = stored input (toISOString (fst (clk (world s))))"
    and "s' = \<lparr>world = snd (clk (world s)), calls = calls s @ [CallNow]\<rparr>"
    and "trim (in_theme input) \<noteq> []" and "trim (in_brandVoice input) \<noteq> []"
    and "\<And>h. in_hashtags input = Some h \<Longrightarrow> length (normalizeHashtags h) \<le> 25"
proof -
  from assms have v: "trim (in_theme input) \<noteq> []" "trim (in_brandVoice input) \<noteq> []"
    "\<And>h. in_hashtags input = Some h \<Longrightarrow> length (normalizeHashtags h) \<le> 25"
    using create_Inr_iff[of input clk s] by auto
  from create_accepts[OF v, of clk s] assms
  show "props d = stored input (toISOString (fst (clk (world s))))"
    and "s' = \<lparr>world = snd (clk (world s)), calls = calls s @ [CallNow]\<rparr>"
    by auto
  from v show "trim (in_theme input) \<noteq> []" and "trim (in_brandVoice input) \<noteq> []"
    and "\<And>h. in_hashtags input = Some h \<Longrightarrow> length (normalizeHashtags h) \<le> 25"
    by auto
qed

text \<open>
  C8, amended. For every input the factory accepts, \<open>toJSON\<close> of the created draft is
  the full record of eleven fields: \<open>id\<close> absent, status \<open>draft\<close>, \<open>createdAt\<close> the
  clock's reading, and every supplied field in the factory's normal form (strings trimmed,
  blank hashtags dropped and the others trimmed in order, an absent \<open>product\<close>,
  \<open>imagePrompt\<close> or \<open>targetPersona\<close> as the empty string). A field supplied in normal
  form is returned as supplied.
\<close>

theorem toJSON_holds_normalized_fields:
  assumes "create input clk s = (Inr d, s')"
  shows "toJSON d =
           \<lparr>ident = None,
            theme = trim (in_theme input),
            brandVoice = trim (in_brandVoice input),
            product = Some (case in_product input of None \<Rightarrow> [] | Some v \<Rightarrow> trim v),
            imagePrompt = Some (case in_imagePrompt input of None \<Rightarrow> [] | Some v \<Rightarrow> trim v),
            targetPersona = Some (case in_targetPersona input of None \<Rightarrow> [] | Some v \<Rightarrow> trim v),
            status = Draft,
            createdAt = toISOString (fst (clk (world s))),
            caption = map_option trim (in_caption input),
            hashtags = map_option (\<lambda>h. map trim (filter (\<lambda>t. trim t \<noteq> []) h)) (in_hashtags input),
            altText = map_option trim (in_altText input)\<rparr>
     \<and> (trim (in_theme input) = in_theme input \<longrightarrow> theme (toJSON d) = in_theme input)
     \<and> (trim (in_brandVoice input) = in_brandVoice input \<longrightarrow>
          brandVoice (toJSON d) = in_brandVoice input)
     \<and> (\<forall>v. in_product input = Some v \<and> trim v = v \<longrightarrow> product (toJSON d) = Some v)
     \<and> (\<forall>v. in_imagePrompt input = Some v \<and> trim v = v \<longrightarrow> imagePrompt (toJSON d) = Some v)
     \<and> (\<forall>v. in_targetPersona input = Some v \<and> trim v = v \<longrightarrow>
          targetPersona (toJSON d) = Some v)
     \<and> ((\<forall>v. in_caption input = Some v \<longrightarrow> trim v = v) \<longrightarrow>
          caption (toJSON d) = in_caption input)
     \<and> ((\<forall>v. in_altText input = Some v \<longrightarrow> trim v = v) \<longrightarrow>
          altText (toJSON d) = in_altText input)
     \<and> ((\<forall>h. in_hashtags input = Some h \<longrightarrow> (\<forall>t \<in> set h. trim t = t \<and> t \<noteq> [])) \<longrightarrow>
          hashtags (toJSON d) = in_hashtags input)"
proof -
  let ?t = "toISOString (fst (clk (world s)))"
  have p: "toJSON d = stored input ?t"
    by (simp add: toJSON_def create_stored(1)[OF assms])
  have 1: "stored input ?t =
           \<lparr>ident = None,
            theme = trim (in_theme input),
            brandVoice = trim (in_brandVoice input),
            product = Some (case in_product input of None \<Rightarrow> [] | Some v \<Rightarrow> trim v),
            imagePrompt = Some (case in_imagePrompt input of None \<Rightarrow> [] | Some v \<Rightarrow> trim v),
            targetPersona = Some (case in_targetPersona input of None \<Rightarrow> [] | Some v \<Rightarrow> trim v),
            status = Draft,
            createdAt = ?t,
            caption = map_option trim (in_caption input),
            hashtags = map_option (\<lambda>h. map trim (filter (\<lambda>t. trim t \<noteq> []) h)) (in_hashtags input),
            altText = map_option trim (in_altText input)\<rparr>"
    by (cases "in_hashtags input") (simp_all add: stored_def trimOrEmpty_def normalizeHashtags_eq)
  have 2: "trim (in_theme input) = in_theme input \<longrightarrow> theme (stored input ?t) = in_theme input"
    by (simp add: stored_def)
  have 3: "trim (in_brandVoice input) = in_brandVoice input \<longrightarrow>
          brandVoice (stored input ?t) = in_brandVoice input"
    by (simp add: stored_def)
  have 4: "\<forall>v. in_product input = Some v \<and> trim v = v \<longrightarrow> product (stored input ?t) = Some v"
    by (simp add: stored_def trimOrEmpty_def)
  have 5: "\<forall>v. in_imagePrompt input = Some v \<and> trim v = v \<longrightarrow>
      imagePrompt (stored input ?t) = Some v"
    by (simp add: stored_def trimOrEmpty_def)
  have 6: "\<forall>v. in_targetPersona input = Some v \<and> trim v = v \<longrightarrow>
      targetPersona (stored input ?t) = Some v"
    by (simp add: stored_def trimOrEmpty_def)
  have 7: "(\<forall>v. in_caption input = Some v \<longrightarrow> trim v = v) \<longrightarrow>
          caption (stored input ?t) = in_caption input"
    by (cases "in_caption input") (simp_all add: stored_def)
  have 8: "(\<forall>v. in_altText input = Some v \<longrightarrow> trim v = v) \<longrightarrow>
          altText (stored input ?t) = in_altText input"
    by (cases "in_altText input") (simp_all add: stored_def)
  have 9: "(\<forall>h. in_hashtags input = Some h \<longrightarrow> (\<forall>t \<in> set h. trim t = t \<and> t \<noteq> [])) \<longrightarrow>
          hashtags (stored input ?t) = in_hashtags input"
    by (cases "in_hashtags input") (simp_all add: stored_def normalizeHashtags_fixed)
  show ?thesis
    unfolding p using 1 2 3 4 5 6 7 8 9 by blast
qed

theorem toJSON_holds_normalized_fields_witness:
  "create sneakerInput fixedClock start = (Inr sneakerDraft, \<lparr>world = (), calls = [CallNow]\<rparr>)
   \<and> theme (toJSON sneakerDraft) = trim (in_theme sneakerInput)
   \<and> product (toJSON sneakerDraft) = in_product sneakerInput
   \<and> caption (toJSON sneakerDraft) = in_caption sneakerInput"
proof -
  note t = toJSON_holds_normalized_fields[OF create_sneaker]
  have a: "trim (utf16 ''AirFlex'') = utf16 ''AirFlex''" "trim (utf16 ''C'') = utf16 ''C''"
    by (simp_all add: trim_def isWhiteSpace_def utf16_def)
  from t have 1: "theme (toJSON sneakerDraft) = trim (in_theme sneakerInput)" by simp
  from t a have 2: "product (toJSON sneakerDraft) = in_product sneakerInput"
    by (simp add: sneakerInput_def)
  from t a have 3: "caption (toJSON sneakerDraft) = in_caption sneakerInput"
    by (simp add: sneakerInput_def)
  from create_sneaker 1 2 3 show ?thesis by blast
qed

section \<open>The use case\<close>

lemma create_Inl_state: "create input clk s = (Inl e, s1) \<Longrightarrow> s1 = s"
  by (auto simp: create_def Let_def invoke_def split: if_splits prod.splits)

lemma execute_invalid:
  assumes "create input (clock uc) s = (Inl e, s1)"
  shows "execute uc input s = (Inl e, s)"
  using assms create_Inl_state[OF assms] by (simp add: execute_def)

lemma execute_valid:
  assumes "create input (clock uc) s = (Inr created, s1)"
    and "idProvider uc (world s1) = (i, w2)"
    and "repository uc (assignId created i) w2 = (res, w3)"
  shows "execute uc input s =
           (case res of Inl e \<Rightarrow> Inl e | Inr u \<Rightarrow> Inr (summaryOf (assignId created i)),
            \<lparr>world = w3, calls = calls s1 @ [CallNext, CallSave (assignId created i)]\<rparr>)"
  using assms
  by (cases res) (simp_all add: execute_def invoke_def Let_def summaryOf_def)

lemma execute_result:
  assumes "execute uc input s = (Inr summary, s')"
  shows "\<exists>created s1 i w2 w3.
           create input (clock uc) s = (Inr created, s1) \<and>
           idProvider uc (world s1) = (i, w2) \<and>
           repository uc (assignId created i) w2 = (Inr (), w3) \<and>
           summary = summaryOf (assignId created i) \<and>
           s' = \<lparr>world = w3, calls = calls s1 @ [CallNext, CallSave (assignId created i)]\<rparr>"
proof (cases "create input (clock uc) s")
  case (Pair r s1)
  show ?thesis
  proof (cases r)
    case (Inl e)
    with Pair assms execute_invalid[of input uc s e s1] show ?thesis by simp
  next
    case (Inr created)
    obtain i w2 where i: "idProvider uc (world s1) = (i, w2)" by (cases "idProvider uc (world s1)")
    obtain res w3 where r: "repository uc (assignId created i) w2 = (res, w3)"
      by (cases "repository uc (assignId created i) w2")
    from Pair Inr have c: "create input (clock uc) s = (Inr created, s1)" by simp
    from execute_valid[OF c i r] assms
    have "res = Inr ()" "summary = summaryOf (assignId created i)"
      "s' = \<lparr>world = w3, calls = calls s1 @ [CallNext, CallSave (assignId created i)]\<rparr>"
      by (cases res; simp)+
    with c i r show ?thesis by blast
  qed
qed

lemma execute_calls:
  assumes "execute uc input s = (r, s')"
  shows "(\<exists>e. r = Inl e \<and> s' = s) \<or>
         (\<exists>d. calls s' = calls s @ [CallNow, CallNext, CallSave d] \<and>
              (\<forall>summary. r = Inr summary \<longrightarrow> ident (props d) = Some (s_id summary)))"
proof (cases "create input (clock uc) s")
  case (Pair cr s1)
  show ?thesis
  proof (cases cr)
    case (Inl e)
    with Pair have "execute uc input s = (Inl e, s)" using execute_invalid by blast
    with assms have "r = Inl e" "s' = s" by simp_all
    then show ?thesis by blast
  next
    case (Inr created)
    obtain i w2 where i: "idProvider uc (world s1) = (i, w2)" by (cases "idProvider uc (world s1)")
    obtain res w3 where rp: "repository uc (assignId created i) w2 = (res, w3)"
      by (cases "repository uc (assignId created i) w2")
    from Pair Inr have c: "create input (clock uc) s = (Inr created, s1)" by simp
    have s1: "calls s1 = calls s @ [CallNow]" by (simp add: create_stored(2)[OF c])
    from execute_valid[OF c i rp] assms
    have r: "r = (case res of Inl e \<Rightarrow> Inl e | Inr u \<Rightarrow> Inr (summaryOf (assignId created i)))"
      and s': "s' = \<lparr>world = w3, calls = calls s1 @ [CallNext, CallSave (assignId created i)]\<rparr>"
      by simp_all
    have "calls s' = calls s @ [CallNow, CallNext, CallSave (assignId created i)]"
      by (simp add: s' s1)
    moreover have "ident (props (assignId created i)) = Some (s_id summary)" if "r = Inr summary" for summary
      using that r by (cases res) (auto simp: summaryOf_def toJSON_def assignId_def)
    ultimately show ?thesis by blast
  qed
qed

lemmas run_defs = run_def execute_def eval_defs generationInput_def draftInput_def
  imagePromptOf_def useCase_def workflowOf_def stubGenerator_def failingGenerator_def
  okScheduler_def failingScheduler_def fixedId_def okRepository_def

lemma execute_sneaker:
  "execute useCase sneakerInput start =
     (Inr \<lparr>s_id = utf16 ''draft-123'', s_status = Draft, s_caption = utf16 ''C'',
           s_hashtags = [utf16 ''a'', utf16 ''b''], s_altText = [],
           s_createdAt = utf16 ''2025-01-01T00:00:00.000Z''\<rparr>,
      \<lparr>world = (), calls = [CallNow, CallNext, CallSave (assignId sneakerDraft (utf16 ''draft-123''))]\<rparr>)"
  by (simp add: run_defs sneakerInput_def sneakerDraft_def)

text \<open>
  C6. When the entity factory rejects the input, \<open>execute\<close> fails with the factory's
  error and leaves the state as it was: no port has been called, so no \<open>save\<close>. When
  \<open>execute\<close> succeeds it has called the clock, the id provider and \<open>save\<close>, each exactly
  once and in that order. The draft saved is the created draft bound to the identifier
  \<open>IdProvider.next\<close> returned, which is also the summary's \<open>id\<close>; the repository was
  applied to it in the world the id provider left, accepted it, and the world it left is
  the one \<open>execute\<close> returns. The summary's \<open>caption\<close>, \<open>hashtags\<close> and \<open>altText\<close> are the
  draft's, and empty where the input had none. When the repository rejects the draft,
  \<open>execute\<close> fails with the repository's error, after that one \<open>save\<close>.
\<close>

theorem execute_saves_once:
  "(\<forall>e s1. create input (clock uc) s = (Inl e, s1) \<longrightarrow> execute uc input s = (Inl e, s))
   \<and> (\<forall>summary s'. execute uc input s = (Inr summary, s') \<longrightarrow>
        (\<exists>d. calls s' = calls s @ [CallNow, CallNext, CallSave d]
             \<and> filter isSave (calls s') = filter isSave (calls s) @ [CallSave d]
             \<and> ident (props d) = Some (fst (idProvider uc (snd (clock uc (world s)))))
             \<and> s_id summary = fst (idProvider uc (snd (clock uc (world s))))
             \<and> (\<exists>created s1. create input (clock uc) s = (Inr created, s1)
                   \<and> d = assignId created (fst (idProvider uc (snd (clock uc (world s))))))
             \<and> repository uc d (snd (idProvider uc (snd (clock uc (world s)))))
                 = (Inr (), world s'))
        \<and> s_status summary = Draft
        \<and> s_createdAt summary = toISOString (fst (clock uc (world s)))
        \<and> s_caption summary = (case in_caption input of None \<Rightarrow> [] | Some c \<Rightarrow> trim c)
        \<and> s_hashtags summary = (case in_hashtags input of None \<Rightarrow> [] | Some h \<Rightarrow> normalizeHashtags h)
        \<and> s_altText summary = (case in_altText input of None \<Rightarrow> [] | Some a \<Rightarrow> trim a))
   \<and> (\<forall>created s1 e w3.
         create input (clock uc) s = (Inr created, s1) \<and>
         repository uc (assignId created (fst (idProvider uc (world s1))))
           (snd (idProvider uc (world s1))) = (Inl e, w3) \<longrightarrow>
         execute uc input s =
           (Inl e, \<lparr>world = w3,
                    calls = calls s @ [CallNow, CallNext,
                      CallSave (assignId created (fst (idProvider uc (world s1))))]\<rparr>))"
proof (intro conjI allI impI)
  fix e s1 assume "create input (clock uc) s = (Inl e, s1)"
  then show "execute uc input s = (Inl e, s)" by (rule execute_invalid)
next
  fix summary s' assume ex: "execute uc input s = (Inr summary, s')"
  from execute_result[OF ex] obtain created s1 i w2 w3 where
    c: "create input (clock uc) s = (Inr created, s1)" and
    i: "idProvider uc (world s1) = (i, w2)" and
    rp: "repository uc (assignId created i) w2 = (Inr (), w3)" and
    sm: "summary = summaryOf (assignId created i)" and
    s': "s' = \<lparr>world = w3, calls = calls s1 @ [CallNext, CallSave (assignId created i)]\<rparr>"
    by blast
  let ?t = "toISOString (fst (clock uc (world s)))"
  note cs = create_stored[OF c]
  have s1: "world s1 = snd (clock uc (world s))" "calls s1 = calls s @ [CallNow]"
    by (simp_all add: cs(2))
  have id: "i = fst (idProvider uc (snd (clock uc (world s))))"
    and w2: "w2 = snd (idProvider uc (snd (clock uc (world s))))"
    using i s1(1) by simp_all
  have pr: "props (assignId created i) = (stored input ?t)\<lparr>ident := Some i\<rparr>"
    by (simp add: assignId_def cs(1))
  show "\<exists>d. calls s' = calls s @ [CallNow, CallNext, CallSave d]
             \<and> filter isSave (calls s') = filter isSave (calls s) @ [CallSave d]
             \<and> ident (props d) = Some (fst (idProvider uc (snd (clock uc (world s)))))
             \<and> s_id summary = fst (idProvider uc (snd (clock uc (world s))))
             \<and> (\<exists>created s1. create input (clock uc) s = (Inr created, s1)
                   \<and> d = assignId created (fst (idProvider uc (snd (clock uc (world s))))))
             \<and> repository uc d (snd (idProvider uc (snd (clock uc (world s)))))
                 = (Inr (), world s')"
  proof (rule exI[of _ "assignId created i"], intro conjI)
    show "calls s' = calls s @ [CallNow, CallNext, CallSave (assignId created i)]"
      by (simp add: s' s1)
    then show "filter isSave (calls s') = filter isSave (calls s) @ [CallSave (assignId created i)]"
      by simp
    show "ident (props (assignId created i)) = Some (fst (idProvider uc (snd (clock uc (world s)))))"
      by (simp add: pr id[symmetric])
    show "s_id summary = fst (idProvider uc (snd (clock uc (world s))))"
      by (simp add: sm summaryOf_def toJSON_def pr id[symmetric])
    show "\<exists>created' s1'. create input (clock uc) s = (Inr created', s1')
        \<and> assignId created i = assignId created' (fst (idProvider uc (snd (clock uc (world s)))))"
      using c id by blast
    show "repository uc (assignId created i) (snd (idProvider uc (snd (clock uc (world s)))))
        = (Inr (), world s')"
      using rp by (simp add: w2[symmetric] s')
  qed
  show "s_status summary = Draft"
    by (simp add: sm summaryOf_def toJSON_def pr stored_def)
  show "s_createdAt summary = ?t"
    by (simp add: sm summaryOf_def toJSON_def pr stored_def)
  show "s_caption summary = (case in_caption input of None \<Rightarrow> [] | Some c \<Rightarrow> trim c)"
    by (cases "in_caption input") (simp_all add: sm summaryOf_def toJSON_def pr stored_def)
  show "s_hashtags summary = (case in_hashtags input of None \<Rightarrow> [] | Some h \<Rightarrow> normalizeHashtags h)"
    by (cases "in_hashtags input") (simp_all add: sm summaryOf_def toJSON_def pr stored_def)
  show "s_altText summary = (case in_altText input of None \<Rightarrow> [] | Some a \<Rightarrow> trim a)"
    by (cases "in_altText input") (simp_all add: sm summaryOf_def toJSON_def pr stored_def)
next
  fix created s1 e w3
  assume a: "create input (clock uc) s = (Inr created, s1) \<and>
         repository uc (assignId created (fst (idProvider uc (world s1))))
           (snd (idProvider uc (world s1))) = (Inl e, w3)"
  then have c: "create input (clock uc) s = (Inr created, s1)"
    and rp: "repository uc (assignId created (fst (idProvider uc (world s1))))
           (snd (idProvider uc (world s1))) = (Inl e, w3)"
    by simp_all
  have i: "idProvider uc (world s1) = (fst (idProvider uc (world s1)), snd (idProvider uc (world s1)))"
    by simp
  have s1: "calls s1 = calls s @ [CallNow]"
    by (simp add: create_stored(2)[OF c])
  from execute_valid[OF c i rp]
  show "execute uc input s =
           (Inl e, \<lparr>world = w3,
                    calls = calls s @ [CallNow, CallNext,
                      CallSave (assignId created (fst (idProvider uc (world s1))))]\<rparr>)"
    by (simp add: s1)
qed

theorem execute_saves_once_witness:
  "execute useCase blankThemeInput start = (Inl (Error ''theme must be a non-empty string''), start)
   \<and> (\<exists>summary s' d. execute useCase sneakerInput start = (Inr summary, s')
         \<and> filter isSave (calls s') = [CallSave d]
         \<and> ident (props d) = Some (utf16 ''draft-123'')
         \<and> s_id summary = utf16 ''draft-123''
         \<and> repository useCase d () = (Inr (), world s')
         \<and> in_altText sneakerInput = None \<and> s_altText summary = [])
   \<and> create sneakerInput (clock (useCase\<lparr>repository := fullRepository\<rparr>)) start =
        (Inr sneakerDraft, \<lparr>world = (), calls = [CallNow]\<rparr>)
   \<and> execute (useCase\<lparr>repository := fullRepository\<rparr>) sneakerInput start =
        (Inl (Error ''kv down''),
         \<lparr>world = (), calls = [CallNow, CallNext,
            CallSave (assignId sneakerDraft (utf16 ''draft-123''))]\<rparr>)"
proof -
  have b: "create blankThemeInput (clock useCase) start =
      (Inl (Error ''theme must be a non-empty string''), start)"
    by (simp add: eval_defs blankThemeInput_def useCase_def)
  from execute_saves_once[of blankThemeInput useCase start] b
  have 1: "execute useCase blankThemeInput start = (Inl (Error ''theme must be a non-empty string''), start)"
    by blast
  have id: "fst (idProvider useCase (snd (clock useCase (world start)))) = utf16 ''draft-123''"
    "snd (idProvider useCase (snd (clock useCase (world start)))) = ()"
    by (simp_all add: useCase_def fixedId_def)
  have a: "in_altText sneakerInput = None" by (simp add: sneakerInput_def)
  have cs: "filter isSave (calls start) = []" by (simp add: start_def)
  let ?s' = "\<lparr>world = (), calls = [CallNow, CallNext, CallSave (assignId sneakerDraft (utf16 ''draft-123''))]\<rparr>"
  from execute_saves_once[of sneakerInput useCase start] execute_sneaker
  obtain d where "filter isSave (calls ?s') = filter isSave (calls start) @ [CallSave d]"
    "ident (props d) = Some (fst (idProvider useCase (snd (clock useCase (world start)))))"
    "repository useCase d (snd (idProvider useCase (snd (clock useCase (world start)))))
       = (Inr (), world ?s')"
    by blast
  then have 2: "filter isSave (calls ?s') = [CallSave d]"
    "ident (props d) = Some (utf16 ''draft-123'')"
    "repository useCase d () = (Inr (), world ?s')"
    by (simp_all only: id cs append_Nil)
  from execute_sneaker 2 a have 3: "\<exists>summary s' d. execute useCase sneakerInput start = (Inr summary, s')
         \<and> filter isSave (calls s') = [CallSave d]
         \<and> ident (props d) = Some (utf16 ''draft-123'')
         \<and> s_id summary = utf16 ''draft-123''
         \<and> repository useCase d () = (Inr (), world s')
         \<and> in_altText sneakerInput = None \<and> s_altText summary = []"
    by (intro exI conjI) (assumption | simp)+
  let ?uc = "useCase\<lparr>repository := fullRepository\<rparr>"
  have c: "create sneakerInput (clock ?uc) start = (Inr sneakerDraft, \<lparr>world = (), calls = [CallNow]\<rparr>)"
    using create_sneaker by (simp add: useCase_def)
  have r: "repository ?uc (assignId sneakerDraft (fst (idProvider ?uc (world \<lparr>world = (), calls = [CallNow]\<rparr>))))
      (snd (idProvider ?uc (world \<lparr>world = (), calls = [CallNow]\<rparr>))) = (Inl (Error ''kv down''), ())"
    by (simp add: fullRepository_def)
  have i: "fst (idProvider ?uc (world \<lparr>world = (), calls = [CallNow]\<rparr>)) = utf16 ''draft-123''"
    by (simp add: useCase_def fixedId_def)
  have st: "calls start = []" by (simp add: start_def)
  from execute_saves_once[of sneakerInput ?uc start] c r
  have "execute ?uc sneakerInput start =
      (Inl (Error ''kv down''), \<lparr>world = (), calls = calls start @ [CallNow, CallNext,
         CallSave (assignId sneakerDraft (fst (idProvider ?uc (world \<lparr>world = (), calls = [CallNow]\<rparr>))))]\<rparr>)"
    by blast
  then have 4: "execute ?uc sneakerInput start =
        (Inl (Error ''kv down''),
         \<lparr>world = (), calls = [CallNow, CallNext,
            CallSave (assignId sneakerDraft (utf16 ''draft-123''))]\<rparr>)"
    by (simp only: i st append_Nil)
  from 1 3 c 4 show ?thesis by blast
qed

section \<open>The workflow\<close>

lemma run_generate_fails:
  assumes "contentGenerator workflow (generationInput input) (world s) = (Inl e, w1)"
  shows "run workflow input s =
           (Inl e, \<lparr>world = w1, calls = calls s @ [CallGenerate (generationInput input)]\<rparr>)"
  using assms by (simp add: run_def invoke_def)

lemma run_execute_fails:
  assumes "contentGenerator workflow (generationInput input) (world s) = (Inr g, w1)"
    and "execute (createDraft workflow) (draftInput input g)
           \<lparr>world = w1, calls = calls s @ [CallGenerate (generationInput input)]\<rparr> = (Inl e, s2)"
  shows "run workflow input s = (Inl e, s2)"
  using assms by (simp add: run_def invoke_def)

lemma run_scheduled:
  assumes "contentGenerator workflow (generationInput input) (world s) = (Inr g, w1)"
    and "execute (createDraft workflow) (draftInput input g)
           \<lparr>world = w1, calls = calls s @ [CallGenerate (generationInput input)]\<rparr> = (Inr draft, s2)"
    and "imageScheduler workflow \<lparr>draftId = s_id draft, prompt = imagePromptOf input\<rparr> (world s2)
           = (res, w3)"
  shows "run workflow input s =
           (case res of Inl e \<Rightarrow> Inl e | Inr job \<Rightarrow> Inr draft,
            \<lparr>world = w3,
             calls = calls s2 @ [CallSchedule \<lparr>draftId = s_id draft, prompt = imagePromptOf input\<rparr>]\<rparr>)"
  using assms by (cases res) (simp_all add: run_def invoke_def Let_def)

lemma run_calls:
  assumes "run workflow input s = (r, s')"
  shows "(\<exists>d si. calls s' = calls s @ [CallGenerate (generationInput input), CallNow, CallNext,
                                      CallSave d, CallSchedule si]
                \<and> si = \<lparr>draftId = the (ident (props d)), prompt = imagePromptOf input\<rparr>
                \<and> (\<forall>summary. r = Inr summary \<longrightarrow> s_id summary = draftId si))
       \<or> (\<exists>d e. calls s' = calls s @ [CallGenerate (generationInput input), CallNow, CallNext,
                                       CallSave d] \<and> r = Inl e)
       \<or> (\<exists>e. calls s' = calls s @ [CallGenerate (generationInput input)] \<and> r = Inl e)"
proof -
  let ?gi = "generationInput input"
  let ?s1 = "\<lambda>w1. \<lparr>world = w1, calls = calls s @ [CallGenerate ?gi]\<rparr>"
  obtain gr w1 where g: "contentGenerator workflow ?gi (world s) = (gr, w1)"
    by (cases "contentGenerator workflow ?gi (world s)")
  show ?thesis
  proof (cases gr)
    case (Inl e)
    with g assms run_generate_fails[of workflow input s e w1]
    have "r = Inl e" "calls s' = calls s @ [CallGenerate ?gi]" by auto
    then show ?thesis by blast
  next
    case (Inr generated)
    with g have g': "contentGenerator workflow ?gi (world s) = (Inr generated, w1)" by simp
    obtain er s2 where ex: "execute (createDraft workflow) (draftInput input generated) (?s1 w1) = (er, s2)"
      by (cases "execute (createDraft workflow) (draftInput input generated) (?s1 w1)")
    note ec = execute_calls[OF ex]
    show ?thesis
    proof (cases er)
      case (Inl e)
      with ex run_execute_fails[OF g', of e s2] assms have r: "r = Inl e" "s' = s2" by auto
      from ec r show ?thesis by auto
    next
      case (Inr draft)
      with ec obtain d where d: "calls s2 = calls (?s1 w1) @ [CallNow, CallNext, CallSave d]"
        "ident (props d) = Some (s_id draft)" by auto
      let ?req = "\<lparr>draftId = s_id draft, prompt = imagePromptOf input\<rparr>"
      obtain res w3 where sc: "imageScheduler workflow ?req (world s2) = (res, w3)"
        by (cases "imageScheduler workflow ?req (world s2)")
      from Inr ex have ex': "execute (createDraft workflow) (draftInput input generated) (?s1 w1) = (Inr draft, s2)"
        by simp
      from run_scheduled[OF g' ex' sc] assms
      have c: "calls s' = calls s2 @ [CallSchedule ?req]"
        and r: "r = (case res of Inl e \<Rightarrow> Inl e | Inr job \<Rightarrow> Inr draft)" by auto
      have "\<forall>summary. r = Inr summary \<longrightarrow> s_id summary = draftId ?req"
        using r by (cases res) auto
      moreover from c d have "calls s' = calls s @ [CallGenerate ?gi, CallNow, CallNext, CallSave d, CallSchedule ?req]"
        "?req = \<lparr>draftId = the (ident (props d)), prompt = imagePromptOf input\<rparr>"
        by simp_all
      ultimately show ?thesis by blast
    qed
  qed
qed

lemma run_spring:
  "\<exists>r d. run (workflowOf stubGenerator okScheduler) springRequest start =
     (Inr r, \<lparr>world = (), calls =
        [CallGenerate (generationInput springRequest), CallNow, CallNext, CallSave d,
         CallSchedule \<lparr>draftId = utf16 ''draft-123'', prompt = utf16 '' spring sneaker''\<rparr>]\<rparr>)"
  by (simp add: run_defs springRequest_def)







text \<open>
  C2, as stated, fails: for the request with theme \<open>" spring sneaker"\<close> and a blank image
  prompt the run succeeds and the scheduler receives the prompt \<open>" spring sneaker"\<close>,
  which is the theme as given and not the trimmed theme \<open>"spring sneaker"\<close>.
\<close>

theorem run_prompt_counterexample:
  "req_imagePrompt springRequest = Some (utf16 ''  '')
   \<and> trim (utf16 ''  '') = []
   \<and> last (calls (snd (run (workflowOf stubGenerator okScheduler) springRequest start))) =
       CallSchedule \<lparr>draftId = utf16 ''draft-123'', prompt = utf16 '' spring sneaker''\<rparr>
   \<and> trim (req_theme springRequest) = utf16 ''spring sneaker''
   \<and> utf16 '' spring sneaker'' \<noteq> trim (req_theme springRequest)"
proof -
  from run_spring obtain r d where
    "run (workflowOf stubGenerator okScheduler) springRequest start =
     (Inr r, \<lparr>world = (), calls =
        [CallGenerate (generationInput springRequest), CallNow, CallNext, CallSave d,
         CallSchedule \<lparr>draftId = utf16 ''draft-123'', prompt = utf16 '' spring sneaker''\<rparr>]\<rparr>)"
    by blast
  then have "last (calls (snd (run (workflowOf stubGenerator okScheduler) springRequest start))) =
       CallSchedule \<lparr>draftId = utf16 ''draft-123'', prompt = utf16 '' spring sneaker''\<rparr>"
    by simp
  moreover have "req_imagePrompt springRequest = Some (utf16 ''  '')"
    by (simp add: springRequest_def)
  moreover have "trim (utf16 ''  '') = []"
    by (simp add: trim_def utf16_def isWhiteSpace_def)
  moreover have "trim (req_theme springRequest) = utf16 ''spring sneaker''"
    by (simp add: springRequest_def trim_def utf16_def isWhiteSpace_def)
  moreover have "utf16 '' spring sneaker'' \<noteq> utf16 ''spring sneaker''"
    by (simp add: utf16_def)
  ultimately show ?thesis by simp
qed

lemma imagePromptOf_cases:
  "imagePromptOf input =
     (case req_imagePrompt input of
        None \<Rightarrow> req_theme input
      | Some v \<Rightarrow> if trim v = [] then req_theme input else trim v)"
  by (cases "req_imagePrompt input") (simp_all add: imagePromptOf_def)

text \<open>
  C2, amended. Every \<open>schedule\<close> call of a run carries as prompt the request's \<open>theme\<close>
  as given when \<open>imagePrompt\<close> is absent or blank, and the trimmed \<open>imagePrompt\<close> when
  that is non-empty; the prompt is the trimmed theme whenever the theme carries no
  surrounding white space. A run that succeeds has made that call last, for the
  identifier of the summary it returns.
\<close>

theorem run_schedule_prompt:
  assumes "run workflow input s = (r, s')"
  shows "(\<forall>si. CallSchedule si \<in> set (drop (length (calls s)) (calls s')) \<longrightarrow>
            (req_imagePrompt input = None \<longrightarrow> prompt si = req_theme input)
          \<and> (\<forall>v. req_imagePrompt input = Some v \<and> trim v = [] \<longrightarrow> prompt si = req_theme input)
          \<and> (\<forall>v. req_imagePrompt input = Some v \<and> trim v \<noteq> [] \<longrightarrow> prompt si = trim v)
          \<and> ((req_imagePrompt input = None \<or> (\<exists>v. req_imagePrompt input = Some v \<and> trim v = []))
               \<and> trim (req_theme input) = req_theme input \<longrightarrow>
               prompt si = trim (req_theme input)))
       \<and> (\<forall>summary. r = Inr summary \<longrightarrow>
            (\<exists>si. last (calls s') = CallSchedule si \<and> draftId si = s_id summary
                  \<and> CallSchedule si \<in> set (drop (length (calls s)) (calls s'))))"
proof (intro conjI allI impI)
  note rc = run_calls[OF assms]
  {
    fix si assume "CallSchedule si \<in> set (drop (length (calls s)) (calls s'))"
    with rc have "prompt si = imagePromptOf input" by auto
  } note p = this
  fix si assume si: "CallSchedule si \<in> set (drop (length (calls s)) (calls s'))"
  show "prompt si = req_theme input" if "req_imagePrompt input = None"
    using p[OF si] that by (simp add: imagePromptOf_cases)
  show "prompt si = req_theme input" if "req_imagePrompt input = Some v \<and> trim v = []" for v
    using p[OF si] that by (simp add: imagePromptOf_cases)
  show "prompt si = trim v" if "req_imagePrompt input = Some v \<and> trim v \<noteq> []" for v
    using p[OF si] that by (simp add: imagePromptOf_cases)
  show "prompt si = trim (req_theme input)"
    if "(req_imagePrompt input = None \<or> (\<exists>v. req_imagePrompt input = Some v \<and> trim v = []))
               \<and> trim (req_theme input) = req_theme input"
    using p[OF si] that by (auto simp: imagePromptOf_cases)
next
  fix summary assume "r = Inr summary"
  with run_calls[OF assms]
  show "\<exists>si. last (calls s') = CallSchedule si \<and> draftId si = s_id summary
                  \<and> CallSchedule si \<in> set (drop (length (calls s)) (calls s'))"
    by auto
qed

theorem run_schedule_prompt_witness:
  "(\<exists>summary s'. run (workflowOf stubGenerator okScheduler) springRequest start = (Inr summary, s')
      \<and> last (calls s') = CallSchedule \<lparr>draftId = utf16 ''draft-123'', prompt = req_theme springRequest\<rparr>)
   \<and> req_imagePrompt springRequest = Some (utf16 ''  '') \<and> trim (utf16 ''  '') = []"
proof -
  from run_spring obtain summary d where run:
    "run (workflowOf stubGenerator okScheduler) springRequest start =
     (Inr summary, \<lparr>world = (), calls =
        [CallGenerate (generationInput springRequest), CallNow, CallNext, CallSave d,
         CallSchedule \<lparr>draftId = utf16 ''draft-123'', prompt = utf16 '' spring sneaker''\<rparr>]\<rparr>)"
    by blast
  let ?s' = "\<lparr>world = (), calls =
        [CallGenerate (generationInput springRequest), CallNow, CallNext, CallSave d,
         CallSchedule \<lparr>draftId = utf16 ''draft-123'', prompt = utf16 '' spring sneaker''\<rparr>]\<rparr>"
  have b: "req_imagePrompt springRequest = Some (utf16 ''  '')" "trim (utf16 ''  '') = []"
    by (simp_all add: springRequest_def trim_def utf16_def isWhiteSpace_def)
  have m: "CallSchedule \<lparr>draftId = utf16 ''draft-123'', prompt = utf16 '' spring sneaker''\<rparr>
      \<in> set (drop (length (calls start)) (calls ?s'))"
    by (simp add: start_def)
  from run_schedule_prompt[OF run] m b
  have "prompt \<lparr>draftId = utf16 ''draft-123'', prompt = utf16 '' spring sneaker''\<rparr> = req_theme springRequest"
    by blast
  then have "last (calls ?s') = CallSchedule \<lparr>draftId = utf16 ''draft-123'', prompt = req_theme springRequest\<rparr>"
    by simp
  with run b show ?thesis by blast
qed

section \<open>The queue-backed scheduler\<close>

text \<open>
  C7, as stated, fails: with a backing queue whose \<open>send\<close> is rejected, \<open>schedule\<close>
  fails with that error and returns no job identifier.
\<close>

theorem schedule_send_failure_counterexample:
  "QueueImageScheduler_schedule (Some rejectingQueue) sneakerJob () =
     (Inl (Error ''send failed''), ())"
  by (simp add: QueueImageScheduler_schedule_def rejectingQueue_def)

text \<open>
  C7, amended. For every \<open>draftId\<close> and \<open>prompt\<close>: with no queue configured \<open>schedule\<close>
  does not fail and returns the job identifier \<open>draftId\<close> followed by \<open>-image\<close>, touching
  nothing; with a queue it returns the same identifier once \<open>send\<close> has succeeded, and
  fails with the error of \<open>send\<close> when that fails.
\<close>

theorem schedule_tolerates_missing_queue:
  "QueueImageScheduler_schedule None input w =
       (Inr \<lparr>imageJobId = draftId input @ utf16 ''-image''\<rparr>, w)
   \<and> (\<forall>send w'.
         send \<lparr>msg_type = generate_image, msg_draftId = draftId input, msg_prompt = prompt input\<rparr> w
           = (Inr (), w') \<longrightarrow>
         QueueImageScheduler_schedule (Some send) input w =
           (Inr \<lparr>imageJobId = draftId input @ utf16 ''-image''\<rparr>, w'))
   \<and> (\<forall>send e w'.
         send \<lparr>msg_type = generate_image, msg_draftId = draftId input, msg_prompt = prompt input\<rparr> w
           = (Inl e, w') \<longrightarrow>
         QueueImageScheduler_schedule (Some send) input w = (Inl e, w'))"
  by (simp add: QueueImageScheduler_schedule_def Let_def)

theorem schedule_tolerates_missing_queue_witness:
  "QueueImageScheduler_schedule None sneakerJob () =
     (Inr \<lparr>imageJobId = utf16 ''draft-123-image''\<rparr>, ())
   \<and> QueueImageScheduler_schedule (Some acceptingQueue) sneakerJob () =
     (Inr \<lparr>imageJobId = utf16 ''draft-123-image''\<rparr>, ())
   \<and> QueueImageScheduler_schedule (Some rejectingQueue) sneakerJob () =
     (Inl (Error ''send failed''), ())"
proof -
  have j: "draftId sneakerJob @ utf16 ''-image'' = utf16 ''draft-123-image''"
    by (simp add: sneakerJob_def utf16_def)
  have a: "acceptingQueue m () = (Inr (), ())" and r: "rejectingQueue m () = (Inl (Error ''send failed''), ())" for m
    by (simp_all add: acceptingQueue_def rejectingQueue_def)
  from schedule_tolerates_missing_queue[of sneakerJob "()"] a r
  show ?thesis unfolding j by blast
qed

end
